theory Spec2Isabelle
  imports Main
begin

section \<open>The generic set \<open>DataSet<T>\<close> (DataSet.h, DataSet.hxx)\<close>

text \<open>
  \<open>DataSet<T>\<close> is a class template with two private fields, a \<open>std::vector<T>\<close> of
  elements and a \<open>std::string\<close> name. The only thing the template asks of \<open>T\<close> is
  \<open>operator==\<close>, so every operation of the model takes that comparison as its first
  argument \<open>eq\<close>: for \<open>T = int\<close> it is the equality of HOL, for \<open>T = DataSet<U>\<close> it
  is the free \<open>operator==\<close> at the end of DataSet.hxx, for \<open>T = std::pair<U, U>\<close>
  the componentwise comparison of the standard library.

  Non-ASCII characters of the derived names are written as their UTF-8 bytes, which is
  what the \<open>std::string\<close> holds.
\<close>

record 'a DataSet =
  elements :: "'a list"
  name :: string

text \<open>Constructor: \<open>name(setName), elements()\<close>.\<close>

definition DataSet :: "string \<Rightarrow> 'a DataSet" where
  "DataSet setName = \<lparr>elements = [], name = setName\<rparr>"

definition getName :: "'a DataSet \<Rightarrow> string" where
  "getName A = name A"

definition setName :: "string \<Rightarrow> 'a DataSet \<Rightarrow> 'a DataSet" where
  "setName newName A = A\<lparr>name := newName\<rparr>"

definition getElements :: "'a DataSet \<Rightarrow> 'a list" where
  "getElements A = elements A"

text \<open>
  \<open>contains\<close>: the iterator walks the vector from \<open>begin()\<close> and returns \<open>true\<close> at the
  first element with \<open>*it == value\<close>, \<open>false\<close> when it reaches \<open>end()\<close>.
\<close>

fun contains_loop :: "('a \<Rightarrow> 'a \<Rightarrow> bool) \<Rightarrow> 'a list \<Rightarrow> 'a \<Rightarrow> bool" where
  "contains_loop eq [] v = False"
| "contains_loop eq (x # it) v = (if eq x v then True else contains_loop eq it v)"

definition contains :: "('a \<Rightarrow> 'a \<Rightarrow> bool) \<Rightarrow> 'a DataSet \<Rightarrow> 'a \<Rightarrow> bool" where
  "contains eq A v = contains_loop eq (elements A) v"

text \<open>\<open>insert\<close>: \<open>push_back\<close> unless \<open>contains(value)\<close>.\<close>

definition insert_DataSet :: "('a \<Rightarrow> 'a \<Rightarrow> bool) \<Rightarrow> 'a \<Rightarrow> 'a DataSet \<Rightarrow> 'a DataSet" where
  "insert_DataSet eq v A =
     (if \<not> contains eq A v then A\<lparr>elements := elements A @ [v]\<rparr> else A)"

text \<open>
  \<open>unionWith\<close>: a fresh result named \<open>this ++ " \<union> " ++ other\<close>; one loop inserts the
  elements of \<open>this\<close>, a second loop those of \<open>other\<close>. Each \<open>while\<close> loop over a vector
  is a \<open>fold\<close> of its body over the list.
\<close>

definition unionWith :: "('a \<Rightarrow> 'a \<Rightarrow> bool) \<Rightarrow> 'a DataSet \<Rightarrow> 'a DataSet \<Rightarrow> 'a DataSet" where
  "unionWith eq A other =
     (let result0 = DataSet (getName A @ [CHR '' '', CHR 0xE2, CHR 0x88, CHR 0xAA, CHR '' ''] @ getName other);
          result1 = fold (insert_DataSet eq) (elements A) result0;
          elemsB = getElements other
      in fold (insert_DataSet eq) elemsB result1)"

definition intersectionWith :: "('a \<Rightarrow> 'a \<Rightarrow> bool) \<Rightarrow> 'a DataSet \<Rightarrow> 'a DataSet \<Rightarrow> 'a DataSet" where
  "intersectionWith eq A other =
     (let result0 = DataSet (getName A @ [CHR '' '', CHR 0xE2, CHR 0x88, CHR 0xA9, CHR '' ''] @ getName other)
      in fold (\<lambda>val result. if contains eq other val then insert_DataSet eq val result else result)
           (elements A) result0)"

definition differenceWith :: "('a \<Rightarrow> 'a \<Rightarrow> bool) \<Rightarrow> 'a DataSet \<Rightarrow> 'a DataSet \<Rightarrow> 'a DataSet" where
  "differenceWith eq A other =
     (let result0 = DataSet (getName A @ ''-'' @ getName other)
      in fold (\<lambda>val result. if \<not> contains eq other val then insert_DataSet eq val result else result)
           (elements A) result0)"

definition symmetricDifferenceWith ::
  "('a \<Rightarrow> 'a \<Rightarrow> bool) \<Rightarrow> 'a DataSet \<Rightarrow> 'a DataSet \<Rightarrow> 'a DataSet" where
  "symmetricDifferenceWith eq A other =
     (let result0 = DataSet (getName A @ '' symmetric_difference '' @ getName other);
          result1 = fold (\<lambda>valA result. if \<not> contains eq other valA then insert_DataSet eq valA result else result)
                      (elements A) result0;
          elemsB = getElements other
      in fold (\<lambda>valB result. if \<not> contains eq A valB then insert_DataSet eq valB result else result)
           elemsB result1)"

text \<open>\<open>isSubsetOf\<close>: returns \<open>false\<close> at the first element that \<open>other\<close> lacks.\<close>

fun isSubsetOf_loop :: "('a \<Rightarrow> 'a \<Rightarrow> bool) \<Rightarrow> 'a list \<Rightarrow> 'a DataSet \<Rightarrow> bool" where
  "isSubsetOf_loop eq [] other = True"
| "isSubsetOf_loop eq (val # it) other =
     (if \<not> contains eq other val then False else isSubsetOf_loop eq it other)"

definition isSubsetOf :: "('a \<Rightarrow> 'a \<Rightarrow> bool) \<Rightarrow> 'a DataSet \<Rightarrow> 'a DataSet \<Rightarrow> bool" where
  "isSubsetOf eq A other = isSubsetOf_loop eq (getElements A) other"

definition isEqualTo :: "('a \<Rightarrow> 'a \<Rightarrow> bool) \<Rightarrow> 'a DataSet \<Rightarrow> 'a DataSet \<Rightarrow> bool" where
  "isEqualTo eq A other = (isSubsetOf eq A other \<and> isSubsetOf eq other A)"

text \<open>
  \<open>size\<close>: the body of the source is the single statement \<open>return 1;\<close> under the
  comment that asks for the number of stored elements (\<open>size_t\<close> is read as \<open>nat\<close>).
\<close>

definition size_DataSet :: "'a DataSet \<Rightarrow> nat" where
  "size_DataSet A = 1"

text \<open>
  \<open>print\<close>: the text written to the stream, given the rendering \<open>sh\<close> of one element
  (\<open>os << elements[i]\<close>); the separator follows every element but the last.
\<close>

fun print_loop :: "('a \<Rightarrow> string) \<Rightarrow> 'a list \<Rightarrow> string" where
  "print_loop sh [] = []"
| "print_loop sh [x] = sh x"
| "print_loop sh (x # y # ys) = sh x @ '', '' @ print_loop sh (y # ys)"

definition print :: "('a \<Rightarrow> string) \<Rightarrow> 'a DataSet \<Rightarrow> string" where
  "print sh A =
     (if name A \<noteq> [] then name A @ '' = '' else []) @ ''{'' @ print_loop sh (elements A) @ ''}''"

text \<open>
  \<open>powerSet\<close> and \<open>cartesianProductWith\<close>: the source constructs the named result and
  returns it; between the two statements there is only a comment.
\<close>

definition powerSet :: "'a DataSet \<Rightarrow> 'a DataSet DataSet" where
  "powerSet A = DataSet (getName A @ '' Power Set'')"

definition cartesianProductWith :: "'a DataSet \<Rightarrow> 'a DataSet \<Rightarrow> ('a \<times> 'a) DataSet" where
  "cartesianProductWith A other =
     DataSet (getName A @ [CHR '' '', CHR 0xC3, CHR 0x97, CHR '' ''] @ getName other)"

text \<open>
  The comparisons of the two derived element types: the free \<open>operator==\<close> of
  \<open>DataSet<T>\<close> is \<open>a.isEqualTo(b)\<close>; \<open>std::pair\<close> compares both components.
\<close>

definition DataSet_eq :: "('a \<Rightarrow> 'a \<Rightarrow> bool) \<Rightarrow> 'a DataSet \<Rightarrow> 'a DataSet \<Rightarrow> bool" where
  "DataSet_eq eq a b = isEqualTo eq a b"

definition pair_eq :: "('a \<Rightarrow> 'a \<Rightarrow> bool) \<Rightarrow> 'a \<times> 'a \<Rightarrow> 'a \<times> 'a \<Rightarrow> bool" where
  "pair_eq eq p q = (eq (fst p) (fst q) \<and> eq (snd p) (snd q))"

section \<open>The registry \<open>DataSetCollection<T>\<close> (DataSetCollection.h, DataSetCollection.hxx)\<close>

text \<open>
  The collection holds one \<open>std::deque<DataSet<T>>\<close>. Every failure of the collection
  is a \<open>throw std::runtime_error(msg)\<close>; the three messages of the source are the three
  kinds of error below. The apostrophe of the messages is the byte \<open>0x27\<close>.
\<close>

record 'a DataSetCollection =
  sets :: "'a DataSet list"

definition DataSetCollection :: "'a DataSetCollection" where
  "DataSetCollection = \<lparr>sets = []\<rparr>"

datatype error = runtime_error string

definition NotFound :: "string \<Rightarrow> error" where
  "NotFound nm = runtime_error (''Set '' @ [CHR 0x27] @ nm @ [CHR 0x27] @ '' not found.'')"

definition InvalidOperation :: "string \<Rightarrow> error" where
  "InvalidOperation op = runtime_error (''Invalid operation: '' @ [CHR 0x27] @ op @ [CHR 0x27])"

definition UnsupportedUnary :: "string \<Rightarrow> error" where
  "UnsupportedUnary op =
     runtime_error (''Unsupported unary operation: '' @ [CHR 0x27] @ op @ [CHR 0x27])"

text \<open>
  \<open>findIndexByName\<close>: the \<open>for\<close> loop over \<open>i = 0 .. sets.size() - 1\<close> returns the first
  index whose set has the name, \<open>-1\<close> after the loop. The index is an \<open>int\<close> in the
  source (\<open>static_cast<int>(i)\<close>); the model reads it as a mathematical integer, which
  is the source's value for every deque of fewer than \<open>2^31\<close> sets.
\<close>

function findIndexByName_loop :: "'a DataSet list \<Rightarrow> string \<Rightarrow> nat \<Rightarrow> int" where
  "findIndexByName_loop ss nm i =
     (if i < length ss
      then (if getName (ss ! i) = nm then int i else findIndexByName_loop ss nm (Suc i))
      else - 1)"
  by pat_completeness auto
termination
  by (relation "measure (\<lambda>(ss, nm, i). length ss - i)") auto

declare findIndexByName_loop.simps [simp del]

definition findIndexByName :: "'a DataSetCollection \<Rightarrow> string \<Rightarrow> int" where
  "findIndexByName C nm = findIndexByName_loop (sets C) nm 0"

definition addSet :: "'a DataSet \<Rightarrow> 'a DataSetCollection \<Rightarrow> 'a DataSetCollection" where
  "addSet s C =
     (let index = findIndexByName C (getName s)
      in if index \<noteq> - 1 then C\<lparr>sets := (sets C)[nat index := s]\<rparr>
         else C\<lparr>sets := sets C @ [s]\<rparr>)"

definition hasSet :: "'a DataSetCollection \<Rightarrow> string \<Rightarrow> bool" where
  "hasSet C nm = (findIndexByName C nm \<noteq> - 1)"

definition insertInto ::
  "('a \<Rightarrow> 'a \<Rightarrow> bool) \<Rightarrow> string \<Rightarrow> 'a \<Rightarrow> 'a DataSetCollection \<Rightarrow> error + 'a DataSetCollection" where
  "insertInto eq nm v C =
     (let index = findIndexByName C nm
      in if index = - 1 then Inl (NotFound nm)
         else Inr (C\<lparr>sets := (sets C)[nat index := insert_DataSet eq v (sets C ! nat index)]\<rparr>))"

text \<open>
  \<open>printSet\<close> writes to the two global streams and is a \<open>const\<close> member: the state it
  runs in is the collection together with the text written so far to \<open>std::cout\<close> and
  \<open>std::cerr\<close>, and it hands that state back. None of its paths throws. \<open>std::endl\<close> is
  the newline byte.
\<close>

record streams =
  cout :: string
  cerr :: string

definition printSet ::
  "('a \<Rightarrow> string) \<Rightarrow> string \<Rightarrow> 'a DataSetCollection \<times> streams
     \<Rightarrow> error + ('a DataSetCollection \<times> streams)" where
  "printSet sh nm st =
     (let C = fst st; io = snd st; index = findIndexByName C nm
      in if index = - 1
         then Inr (C, io\<lparr>cerr := cerr io @ ''Set '' @ [CHR 0x27] @ nm @ [CHR 0x27] @ '' not found.''
                                  @ [CHR 0x0A]\<rparr>)
         else Inr (C, io\<lparr>cout := cout io @ print sh (sets C ! nat index) @ [CHR 0x0A]\<rparr>))"

definition getSet :: "'a DataSetCollection \<Rightarrow> string \<Rightarrow> error + 'a DataSet" where
  "getSet C nm =
     (let index = findIndexByName C nm
      in if index = - 1 then Inl (NotFound nm) else Inr (sets C ! nat index))"

definition getSetNames :: "'a DataSetCollection \<Rightarrow> string list" where
  "getSetNames C = map getName (sets C)"

text \<open>
  \<open>operate\<close>: both operands are fetched with \<open>getSet\<close> before the keyword is looked at,
  so a missing name throws first. \<open>result0\<close> is the set the source constructs before the
  \<open>if\<close> chain; every branch that returns overwrites it. The result is renamed after
  the chain.
\<close>

definition operate ::
  "('a \<Rightarrow> 'a \<Rightarrow> bool) \<Rightarrow> 'a DataSetCollection \<Rightarrow> string \<Rightarrow> string \<Rightarrow> string \<Rightarrow> error + 'a DataSet" where
  "operate eq C nameA op nameB =
     (case getSet C nameA of Inl e \<Rightarrow> Inl e | Inr A \<Rightarrow>
      (case getSet C nameB of Inl e \<Rightarrow> Inl e | Inr B \<Rightarrow>
       (case (let result0 = DataSet (getName A @ '' '' @ op @ '' '' @ getName B) :: 'a DataSet
              in if op = ''union'' then Inr (unionWith eq A B)
              else if op = ''intersection'' then Inr (intersectionWith eq A B)
              else if op = ''difference'' then Inr (differenceWith eq A B)
              else if op = ''symmetric_difference'' then Inr (symmetricDifferenceWith eq A B)
              else Inl (InvalidOperation op))
        of Inl e \<Rightarrow> Inl e
         | Inr result \<Rightarrow> Inr (setName (''('' @ nameA @ '' '' @ op @ '' '' @ nameB @ '')'') result))))"

definition operateUnarySet ::
  "'a DataSetCollection \<Rightarrow> string \<Rightarrow> string \<Rightarrow> error + 'a DataSet DataSet" where
  "operateUnarySet C nm op =
     (case getSet C nm of Inl e \<Rightarrow> Inl e | Inr A \<Rightarrow>
      if op = ''powerset'' then Inr (powerSet A) else Inl (UnsupportedUnary op))"

definition cartesianProduct ::
  "'a DataSetCollection \<Rightarrow> string \<Rightarrow> string \<Rightarrow> error + ('a \<times> 'a) DataSet" where
  "cartesianProduct C nameA nameB =
     (case getSet C nameA of Inl e \<Rightarrow> Inl e | Inr A \<Rightarrow>
      (case getSet C nameB of Inl e \<Rightarrow> Inl e | Inr B \<Rightarrow> Inr (cartesianProductWith A B)))"

section \<open>The invariant and the reachable sets\<close>

text \<open>
  No two stored elements compare equal, in either order of the operands of \<open>==\<close>.
\<close>

fun noDuplicates :: "('a \<Rightarrow> 'a \<Rightarrow> bool) \<Rightarrow> 'a list \<Rightarrow> bool" where
  "noDuplicates eq [] = True"
| "noDuplicates eq (x # xs) =
     (list_all (\<lambda>y. \<not> eq x y \<and> \<not> eq y x) xs \<and> noDuplicates eq xs)"

text \<open>
  The sets of element type \<open>T\<close> that the public interface of \<open>DataSet<T>\<close> can produce:
  the constructor, \<open>insert\<close>, \<open>setName\<close>, and the four algebraic operations applied to
  such sets.
\<close>

inductive reachable :: "('a \<Rightarrow> 'a \<Rightarrow> bool) \<Rightarrow> 'a DataSet \<Rightarrow> bool" for eq :: "'a \<Rightarrow> 'a \<Rightarrow> bool" where
  r_new: "reachable eq (DataSet nm)"
| r_insert: "reachable eq A \<Longrightarrow> reachable eq (insert_DataSet eq v A)"
| r_setName: "reachable eq A \<Longrightarrow> reachable eq (setName nm A)"
| r_union: "reachable eq A \<Longrightarrow> reachable eq B \<Longrightarrow> reachable eq (unionWith eq A B)"
| r_intersection: "reachable eq A \<Longrightarrow> reachable eq B \<Longrightarrow> reachable eq (intersectionWith eq A B)"
| r_difference: "reachable eq A \<Longrightarrow> reachable eq B \<Longrightarrow> reachable eq (differenceWith eq A B)"
| r_symmetric: "reachable eq A \<Longrightarrow> reachable eq B \<Longrightarrow> reachable eq (symmetricDifferenceWith eq A B)"

section \<open>The concrete scenario of the specification\<close>

text \<open>
  \<open>A = {1, 2, 3}\<close> and \<open>B = {2, 3, 4}\<close>, as the driver builds them with \<open>insert\<close>, and
  the collection that registers both.
\<close>

definition scenario_A :: "int DataSet" where
  "scenario_A = \<lparr>elements = [1, 2, 3], name = ''A''\<rparr>"

definition scenario_B :: "int DataSet" where
  "scenario_B = \<lparr>elements = [2, 3, 4], name = ''B''\<rparr>"

definition scenario_collection :: "int DataSetCollection" where
  "scenario_collection = \<lparr>sets = [scenario_A, scenario_B]\<rparr>"

lemmas scenario_defs = scenario_A_def scenario_B_def scenario_collection_def

section \<open>Membership, insertion and the insertion loops\<close>

lemma contains_loop_iff: "contains_loop eq xs v \<longleftrightarrow> (\<exists>x\<in>set xs. eq x v)"
  by (induction xs) auto

lemma contains_iff: "contains eq A v \<longleftrightarrow> (\<exists>x\<in>set (elements A). eq x v)"
  by (simp add: contains_def contains_loop_iff)

lemma elements_DataSet [simp]: "elements (DataSet nm) = []"
  by (simp add: DataSet_def)

lemma elements_setName [simp]: "elements (setName nm A) = elements A"
  by (simp add: setName_def)

lemma contains_DataSet [simp]: "\<not> contains eq (DataSet nm) v"
  by (simp add: contains_iff)

lemma elements_insert:
  "elements (insert_DataSet eq v A) = (if contains eq A v then elements A else elements A @ [v])"
  by (simp add: insert_DataSet_def)

lemma noDuplicates_snoc:
  "noDuplicates eq (xs @ [v]) \<longleftrightarrow> noDuplicates eq xs \<and> (\<forall>x\<in>set xs. \<not> eq x v \<and> \<not> eq v x)"
  by (induction xs) (auto simp: list_all_iff)

lemma noDuplicates_insert:
  assumes "symp eq" and "noDuplicates eq (elements A)"
  shows "noDuplicates eq (elements (insert_DataSet eq v A))"
  using assms by (auto simp: elements_insert noDuplicates_snoc contains_iff dest: sympD)

text \<open>
  All six loops of the algebra have the body \<open>if (P(val)) result.insert(val)\<close>; the two
  loops of \<open>unionWith\<close> are the case of a \<open>P\<close> that always holds.
\<close>

lemma noDuplicates_fold:
  assumes "symp eq" and "noDuplicates eq (elements R)"
  shows "noDuplicates eq (elements (fold (\<lambda>v r. if P v then insert_DataSet eq v r else r) xs R))"
  using assms(2)
  by (induction xs arbitrary: R) (simp_all add: noDuplicates_insert [OF assms(1)])

lemma contains_insert:
  assumes "transp eq"
  shows "contains eq (insert_DataSet eq v A) w \<longleftrightarrow> contains eq A w \<or> eq v w"
  using assms by (auto simp: contains_iff elements_insert dest: transpD)

lemma contains_fold:
  assumes "transp eq"
  shows "contains eq (fold (\<lambda>v r. if P v then insert_DataSet eq v r else r) xs R) w
           \<longleftrightarrow> contains eq R w \<or> (\<exists>x\<in>set xs. P x \<and> eq x w)"
  by (induction xs arbitrary: R) (auto simp: contains_insert [OF assms])

lemma elements_fold:
  assumes "noDuplicates eq xs"
  shows "elements (fold (\<lambda>v r. if P v then insert_DataSet eq v r else r) xs R)
           = elements R @ filter (\<lambda>x. P x \<and> \<not> contains eq R x) xs"
  using assms
proof (induction xs arbitrary: R)
  case Nil
  then show ?case by simp
next
  case (Cons x xs)
  let ?R = "if P x then insert_DataSet eq x R else R"
  have nd: "noDuplicates eq xs" and fresh: "\<forall>y\<in>set xs. \<not> eq x y"
    using Cons.prems by (auto simp: list_all_iff)
  have same: "\<forall>y\<in>set xs. contains eq ?R y = contains eq R y"
    using fresh by (auto simp: contains_iff elements_insert)
  have "filter (\<lambda>y. P y \<and> \<not> contains eq ?R y) xs = filter (\<lambda>y. P y \<and> \<not> contains eq R y) xs"
    using same by (intro filter_cong) auto
  then show ?case
    using Cons.IH [OF nd, of ?R] by (simp add: elements_insert)
qed

section \<open>\<open>size\<close>, \<open>powerSet\<close> and \<open>cartesianProductWith\<close>\<close>

text \<open>
  C1. \<open>size()\<close> is to return the number of stored elements: 0 for a fresh set, one more
  after each insert of an absent value. The source returns the constant 1: the fresh set
  \<open>A\<close> has no element and size 1, and after the inserts of 5 and 7 it has two elements
  and still size 1.
\<close>

theorem size_ignores_elements:
  "size_DataSet (DataSet ''A'' :: int DataSet) = 1
   \<and> length (elements (DataSet ''A'' :: int DataSet)) = 0
   \<and> size_DataSet (insert_DataSet (=) 7 (insert_DataSet (=) 5 (DataSet ''A'' :: int DataSet))) = 1
   \<and> length (elements (insert_DataSet (=) 7 (insert_DataSet (=) 5 (DataSet ''A'' :: int DataSet)))) = 2"
  by (simp add: size_DataSet_def DataSet_def insert_DataSet_def contains_def)

text \<open>
  C2. The power set of a set of \<open>n\<close> elements is to hold \<open>2^n\<close> subsets, the empty set
  and the set itself among them. The source returns the freshly constructed result: for
  the empty set \<open>A\<close> and for \<open>B = {1, 2}\<close> the power set stores no element, so neither
  the empty set nor \<open>B\<close> is in it.
\<close>

theorem powerSet_stores_nothing:
  "elements (powerSet (DataSet ''A'' :: int DataSet)) = []
   \<and> \<not> contains (DataSet_eq (=)) (powerSet (DataSet ''A'' :: int DataSet)) (DataSet [])
   \<and> elements (powerSet \<lparr>elements = [1, 2 :: int], name = ''B''\<rparr>) = []
   \<and> \<not> contains (DataSet_eq (=)) (powerSet \<lparr>elements = [1, 2 :: int], name = ''B''\<rparr>)
         \<lparr>elements = [1, 2 :: int], name = ''B''\<rparr>"
  by (simp add: powerSet_def DataSet_def contains_def)

text \<open>
  C3. The Cartesian product is to hold every pair \<open>(a, b)\<close>, row by row, \<open>m * n\<close> of
  them. The source returns the freshly constructed result: for \<open>A = {1, 2}\<close> and
  \<open>B = {3}\<close> the product stores no pair, \<open>(1, 3)\<close> is not in it, and its reported size
  is 1, not 2.
\<close>

theorem cartesianProductWith_stores_nothing:
  "elements (cartesianProductWith \<lparr>elements = [1, 2 :: int], name = ''A''\<rparr>
                                  \<lparr>elements = [3], name = ''B''\<rparr>) = []
   \<and> \<not> contains (pair_eq (=))
         (cartesianProductWith \<lparr>elements = [1, 2 :: int], name = ''A''\<rparr> \<lparr>elements = [3], name = ''B''\<rparr>)
         (1, 3)
   \<and> size_DataSet (cartesianProductWith \<lparr>elements = [1, 2 :: int], name = ''A''\<rparr>
                                        \<lparr>elements = [3], name = ''B''\<rparr>) = 1"
  by (simp add: cartesianProductWith_def DataSet_def contains_def size_DataSet_def)

text \<open>
  C4. \<open>A.differenceWith(A).size()\<close> is to be 0. For \<open>A = {1, 2, 3}\<close> the difference
  stores no element, as it should, and \<open>size()\<close> reports 1.
\<close>

theorem difference_self_size_one:
  "elements (differenceWith (=) \<lparr>elements = [1, 2, 3 :: int], name = ''A''\<rparr>
                                \<lparr>elements = [1, 2, 3 :: int], name = ''A''\<rparr>) = []
   \<and> size_DataSet (differenceWith (=) \<lparr>elements = [1, 2, 3 :: int], name = ''A''\<rparr>
                                      \<lparr>elements = [1, 2, 3 :: int], name = ''A''\<rparr>) = 1"
  by (simp add: differenceWith_def DataSet_def contains_def size_DataSet_def)

section \<open>\<open>insert\<close>\<close>

text \<open>
  C5. After \<open>A.insert(v)\<close>, \<open>A.contains(v)\<close> holds and \<open>size()\<close> has grown by at most 1;
  inserting a value that is already present changes nothing at all, so \<open>size()\<close> stays
  as it was. The same bounds hold for the number of stored elements, which is what
  \<open>size()\<close> is meant to report. The comparison \<open>eq\<close> of the element type is an
  equivalence.
\<close>

theorem insert_contract:
  assumes "equivp eq"
  shows "contains eq (insert_DataSet eq v A) v
         \<and> size_DataSet (insert_DataSet eq v A) \<le> size_DataSet A + 1
         \<and> length (elements A) \<le> length (elements (insert_DataSet eq v A))
         \<and> length (elements (insert_DataSet eq v A)) \<le> length (elements A) + 1
         \<and> (contains eq A v \<longrightarrow>
              insert_DataSet eq v A = A
              \<and> size_DataSet (insert_DataSet eq v A) = size_DataSet A)"
proof -
  have "eq v v"
    using assms by (rule equivp_reflp)
  then have "contains eq (insert_DataSet eq v A) v"
    by (auto simp: contains_iff elements_insert)
  then show ?thesis
    by (simp add: elements_insert size_DataSet_def) (simp add: insert_DataSet_def)
qed

theorem insert_contract_witness:
  "equivp ((=) :: int \<Rightarrow> int \<Rightarrow> bool)
   \<and> contains (=) \<lparr>elements = [1, 2, 3 :: int], name = ''A''\<rparr> 2
   \<and> insert_DataSet (=) 2 \<lparr>elements = [1, 2, 3 :: int], name = ''A''\<rparr>
       = \<lparr>elements = [1, 2, 3], name = ''A''\<rparr>
   \<and> size_DataSet (insert_DataSet (=) 2 \<lparr>elements = [1, 2, 3 :: int], name = ''A''\<rparr>)
       = size_DataSet \<lparr>elements = [1, 2, 3 :: int], name = ''A''\<rparr>
   \<and> contains (=) (insert_DataSet (=) 2 \<lparr>elements = [1, 2, 3 :: int], name = ''A''\<rparr>) 2"
  using insert_contract [OF identity_equivp, of 2 "\<lparr>elements = [1, 2, 3 :: int], name = ''A''\<rparr>"]
  by (simp add: identity_equivp contains_def)

section \<open>\<open>unionWith\<close>\<close>

lemma fold_insert_if_True:
  "fold (insert_DataSet eq) xs R = fold (\<lambda>v r. if True then insert_DataSet eq v r else r) xs R"
  by simp

lemma elements_unionWith:
  assumes "noDuplicates eq (elements A)" and "noDuplicates eq (elements B)"
  shows "elements (unionWith eq A B)
           = elements A @ filter (\<lambda>b. \<not> contains eq A b) (elements B)"
proof -
  let ?R0 = "DataSet (getName A @ [CHR '' '', CHR 0xE2, CHR 0x88, CHR 0xAA, CHR '' ''] @ getName B) :: 'a DataSet"
  let ?R1 = "fold (insert_DataSet eq) (elements A) ?R0"
  have e1: "elements ?R1 = elements A"
    using elements_fold [OF assms(1), of "\<lambda>_. True" ?R0] by simp
  have "elements (fold (insert_DataSet eq) (elements B) ?R1)
          = elements ?R1 @ filter (\<lambda>b. \<not> contains eq ?R1 b) (elements B)"
    using elements_fold [OF assms(2), of "\<lambda>_. True" ?R1] by simp
  also have "\<dots> = elements A @ filter (\<lambda>b. \<not> contains eq A b) (elements B)"
    using e1 by (simp add: contains_def)
  finally show ?thesis
    by (simp add: unionWith_def getElements_def)
qed

lemma eq_class_at_most_once:
  assumes "equivp eq" and "noDuplicates eq xs"
  shows "length (filter (\<lambda>y. eq y v) xs) \<le> 1"
  using assms(2)
proof (induction xs)
  case Nil
  then show ?case by simp
next
  case (Cons x xs)
  show ?case
  proof (cases "eq x v")
    case True
    have "\<not> eq y v" if "y \<in> set xs" for y
    proof
      assume "eq y v"
      then have "eq x y"
        using True assms(1) by (meson equivp_symp equivp_transp)
      then show False
        using Cons.prems that by (auto simp: list_all_iff)
    qed
    then have "filter (\<lambda>y. eq y v) xs = []"
      by (simp add: filter_empty_conv)
    then show ?thesis using True by simp
  next
    case False
    then show ?thesis using Cons by simp
  qed
qed

lemma eq_class_exactly_once:
  assumes "equivp eq" and "noDuplicates eq xs" and "\<exists>x\<in>set xs. eq x v"
  shows "length (filter (\<lambda>y. eq y v) xs) = 1"
proof -
  have "filter (\<lambda>y. eq y v) xs \<noteq> []"
    using assms(3) by (simp add: filter_empty_conv)
  then have "1 \<le> length (filter (\<lambda>y. eq y v) xs)"
    by (cases "filter (\<lambda>y. eq y v) xs") simp_all
  with eq_class_at_most_once [OF assms(1,2), of v] show ?thesis by simp
qed

lemma contains_unionWith:
  assumes "transp eq"
  shows "contains eq (unionWith eq A B) w \<longleftrightarrow> contains eq A w \<or> contains eq B w"
proof -
  have "contains eq (unionWith eq A B) w
          \<longleftrightarrow> (\<exists>x\<in>set (elements A). eq x w) \<or> (\<exists>x\<in>set (elements B). eq x w)"
    unfolding unionWith_def Let_def getElements_def fold_insert_if_True [of eq]
    by (simp only: contains_fold [OF assms]) (auto simp: contains_iff)
  then show ?thesis by (simp add: contains_iff)
qed

text \<open>
  C6. For sets \<open>A\<close> and \<open>B\<close> that satisfy the invariant, the elements of
  \<open>A.unionWith(B)\<close> are, in this order, the elements of \<open>A\<close> in their stored order and
  then the elements of \<open>B\<close> that \<open>A\<close> does not contain, in the order of \<open>B\<close>. The
  result has no duplicates, and every element of \<open>A\<close> and every element of \<open>B\<close> is
  matched by exactly one element of the result. The operation is a \<open>const\<close> member that
  takes \<open>other\<close> by \<open>const\<close> reference: the model returns the new set only, so the
  operands are the same values after the call.
\<close>

theorem unionWith_order_and_multiplicity:
  assumes "equivp eq" and "noDuplicates eq (elements A)" and "noDuplicates eq (elements B)"
  shows "elements (unionWith eq A B)
           = elements A @ filter (\<lambda>b. \<not> contains eq A b) (elements B)
         \<and> noDuplicates eq (elements (unionWith eq A B))
         \<and> (\<forall>v. v \<in> set (elements A) \<or> v \<in> set (elements B) \<longrightarrow>
                length (filter (\<lambda>y. eq y v) (elements (unionWith eq A B))) = 1)"
proof -
  have sym: "symp eq" and tr: "transp eq" and refl: "\<And>x. eq x x"
    using assms(1) by (auto intro: equivp_symp equivp_transp equivp_reflp sympI transpI)
  have order: "elements (unionWith eq A B)
                 = elements A @ filter (\<lambda>b. \<not> contains eq A b) (elements B)"
    using assms(2,3) by (rule elements_unionWith)
  have nd: "noDuplicates eq (elements (unionWith eq A B))"
    unfolding unionWith_def Let_def getElements_def fold_insert_if_True [of eq]
    by (intro noDuplicates_fold [OF sym]) simp
  have once: "length (filter (\<lambda>y. eq y v) (elements (unionWith eq A B))) = 1"
    if "v \<in> set (elements A) \<or> v \<in> set (elements B)" for v
  proof -
    have "contains eq A v \<or> contains eq B v"
      using that refl by (auto simp: contains_iff)
    then have "contains eq (unionWith eq A B) v"
      by (simp add: contains_unionWith [OF tr])
    then show ?thesis
      using eq_class_exactly_once [OF assms(1) nd] by (simp add: contains_iff)
  qed
  from order nd once show ?thesis by blast
qed

theorem unionWith_order_and_multiplicity_witness:
  "equivp ((=) :: int \<Rightarrow> int \<Rightarrow> bool)
   \<and> noDuplicates (=) (elements scenario_A) \<and> noDuplicates (=) (elements scenario_B)
   \<and> elements (unionWith (=) scenario_A scenario_B) = [1, 2, 3, 4]
   \<and> 4 \<in> set (elements scenario_B)
   \<and> length (filter (\<lambda>y. y = 4) (elements (unionWith (=) scenario_A scenario_B))) = 1"
  using unionWith_order_and_multiplicity [OF identity_equivp, of scenario_A scenario_B]
  by (simp add: scenario_defs contains_def identity_equivp)

section \<open>Membership in the results of the algebra\<close>

lemma contains_respects:
  assumes "equivp eq" and "eq x w"
  shows "contains eq A x = contains eq A w"
proof -
  have "eq w x" using assms by (meson equivp_symp)
  then show ?thesis
    using assms by (auto simp: contains_iff) (meson equivp_transp)+
qed

lemma contains_selected:
  assumes "\<And>x. eq x w \<Longrightarrow> P x = P w"
  shows "(\<exists>x\<in>set (elements A). P x \<and> eq x w) \<longleftrightarrow> contains eq A w \<and> P w"
  using assms by (auto simp: contains_iff)

lemma contains_intersectionWith:
  assumes "equivp eq"
  shows "contains eq (intersectionWith eq A B) w \<longleftrightarrow> contains eq A w \<and> contains eq B w"
proof -
  have tr: "transp eq" using assms by (auto intro: transpI equivp_transp)
  have "contains eq (intersectionWith eq A B) w
          \<longleftrightarrow> (\<exists>x\<in>set (elements A). contains eq B x \<and> eq x w)"
    unfolding intersectionWith_def Let_def
    by (simp only: contains_fold [OF tr]) simp
  also have "\<dots> \<longleftrightarrow> contains eq A w \<and> contains eq B w"
    by (rule contains_selected) (rule contains_respects [OF assms])
  finally show ?thesis .
qed

lemma contains_differenceWith:
  assumes "equivp eq"
  shows "contains eq (differenceWith eq A B) w \<longleftrightarrow> contains eq A w \<and> \<not> contains eq B w"
proof -
  have tr: "transp eq" using assms by (auto intro: transpI equivp_transp)
  have "contains eq (differenceWith eq A B) w
          \<longleftrightarrow> (\<exists>x\<in>set (elements A). \<not> contains eq B x \<and> eq x w)"
    unfolding differenceWith_def Let_def
    by (simp only: contains_fold [OF tr]) simp
  also have "\<dots> \<longleftrightarrow> contains eq A w \<and> \<not> contains eq B w"
    by (rule contains_selected) (simp add: contains_respects [OF assms])
  finally show ?thesis .
qed

lemma contains_symmetricDifferenceWith:
  assumes "equivp eq"
  shows "contains eq (symmetricDifferenceWith eq A B) w
           \<longleftrightarrow> (contains eq A w \<and> \<not> contains eq B w) \<or> (contains eq B w \<and> \<not> contains eq A w)"
proof -
  have tr: "transp eq" using assms by (auto intro: transpI equivp_transp)
  have l: "(\<exists>x\<in>set (elements A). \<not> contains eq B x \<and> eq x w) \<longleftrightarrow> contains eq A w \<and> \<not> contains eq B w"
    by (rule contains_selected) (simp add: contains_respects [OF assms])
  have r: "(\<exists>x\<in>set (elements B). \<not> contains eq A x \<and> eq x w) \<longleftrightarrow> contains eq B w \<and> \<not> contains eq A w"
    by (rule contains_selected) (simp add: contains_respects [OF assms])
  have "contains eq (symmetricDifferenceWith eq A B) w
          \<longleftrightarrow> (\<exists>x\<in>set (elements A). \<not> contains eq B x \<and> eq x w)
              \<or> (\<exists>x\<in>set (elements B). \<not> contains eq A x \<and> eq x w)"
    unfolding symmetricDifferenceWith_def Let_def getElements_def
    by (simp only: contains_fold [OF tr]) simp
  then show ?thesis
    by (simp only: l r)
qed

lemma isSubsetOf_loop_iff:
  "isSubsetOf_loop eq xs B \<longleftrightarrow> (\<forall>x\<in>set xs. contains eq B x)"
  by (induction xs) auto

lemma isSubsetOf_iff:
  "isSubsetOf eq A B \<longleftrightarrow> (\<forall>x\<in>set (elements A). contains eq B x)"
  by (simp add: isSubsetOf_def getElements_def isSubsetOf_loop_iff)

lemma contains_member:
  assumes "equivp eq" and "x \<in> set (elements A)"
  shows "contains eq A x"
  using assms by (auto simp: contains_iff intro: equivp_reflp)

lemma isSubsetOf_contains:
  assumes "equivp eq"
  shows "isSubsetOf eq A B \<longleftrightarrow> (\<forall>w. contains eq A w \<longrightarrow> contains eq B w)"
proof
  assume sub: "isSubsetOf eq A B"
  show "\<forall>w. contains eq A w \<longrightarrow> contains eq B w"
  proof (intro allI impI)
    fix w assume "contains eq A w"
    then obtain x where x: "x \<in> set (elements A)" "eq x w"
      by (auto simp: contains_iff)
    then have "contains eq B x" using sub by (simp add: isSubsetOf_iff)
    then show "contains eq B w"
      using contains_respects [OF assms x(2)] by simp
  qed
next
  assume "\<forall>w. contains eq A w \<longrightarrow> contains eq B w"
  then show "isSubsetOf eq A B"
    using contains_member [OF assms] by (auto simp: isSubsetOf_iff)
qed

lemma isEqualTo_contains:
  assumes "equivp eq"
  shows "isEqualTo eq A B \<longleftrightarrow> (\<forall>w. contains eq A w = contains eq B w)"
  by (auto simp: isEqualTo_def isSubsetOf_contains [OF assms])

lemma equivp_DataSet_eq:
  assumes "equivp eq"
  shows "equivp (DataSet_eq eq)"
  by (rule equivpI) (auto simp: reflp_def symp_def transp_def DataSet_eq_def isEqualTo_contains [OF assms])

lemma equivp_pair_eq:
  assumes "equivp eq"
  shows "equivp (pair_eq eq)"
proof (rule equivpI)
  show "reflp (pair_eq eq)"
    using assms by (auto simp: reflp_def pair_eq_def intro: equivp_reflp)
  show "symp (pair_eq eq)"
    using assms by (auto simp: symp_def pair_eq_def intro: equivp_symp)
  show "transp (pair_eq eq)"
    using assms by (auto simp: transp_def pair_eq_def intro: equivp_transp)
qed

text \<open>
  C7. \<open>A.symmetricDifferenceWith(B)\<close> and
  \<open>A.unionWith(B).differenceWith(A.intersectionWith(B))\<close> are equal under \<open>isEqualTo\<close>,
  the mutual containment of the source, for all sets \<open>A\<close> and \<open>B\<close>.
\<close>

theorem symmetricDifference_as_union_minus_intersection:
  assumes "equivp eq"
  shows "isEqualTo eq (symmetricDifferenceWith eq A B)
           (differenceWith eq (unionWith eq A B) (intersectionWith eq A B))"
proof -
  have tr: "transp eq" using assms by (auto intro: transpI equivp_transp)
  have "contains eq (symmetricDifferenceWith eq A B) w
          = contains eq (differenceWith eq (unionWith eq A B) (intersectionWith eq A B)) w" for w
    by (auto simp: contains_symmetricDifferenceWith [OF assms] contains_differenceWith [OF assms]
        contains_unionWith [OF tr] contains_intersectionWith [OF assms])
  then show ?thesis
    by (simp add: isEqualTo_def isSubsetOf_contains [OF assms])
qed

theorem symmetricDifference_as_union_minus_intersection_witness:
  "equivp ((=) :: int \<Rightarrow> int \<Rightarrow> bool)
   \<and> elements (symmetricDifferenceWith (=) scenario_A scenario_B) = [1, 4]
   \<and> elements (differenceWith (=) (unionWith (=) scenario_A scenario_B)
                  (intersectionWith (=) scenario_A scenario_B)) = [1, 4]
   \<and> isEqualTo (=) (symmetricDifferenceWith (=) scenario_A scenario_B)
         (differenceWith (=) (unionWith (=) scenario_A scenario_B)
            (intersectionWith (=) scenario_A scenario_B))"
  using symmetricDifference_as_union_minus_intersection [OF identity_equivp, of scenario_A scenario_B]
  by (simp add: scenario_defs identity_equivp symmetricDifferenceWith_def differenceWith_def
      unionWith_def intersectionWith_def DataSet_def getElements_def getName_def
      insert_DataSet_def contains_def)

section \<open>The invariant\<close>

text \<open>
  C9. Every set that the public interface produces (the constructor, \<open>insert\<close>,
  \<open>setName\<close>, union, intersection, difference and symmetric difference of such sets)
  stores no two elements that compare equal; the same holds for what \<open>powerSet\<close> and
  \<open>cartesianProductWith\<close> return, under the comparisons of their element types.
\<close>

theorem reachable_noDuplicates:
  assumes "equivp eq"
  shows "(reachable eq A \<longrightarrow> noDuplicates eq (elements A))
         \<and> noDuplicates (DataSet_eq eq) (elements (powerSet A))
         \<and> noDuplicates (pair_eq eq) (elements (cartesianProductWith A B))"
proof -
  have sym: "symp eq" using assms by (auto intro: sympI equivp_symp)
  have "noDuplicates eq (elements S)" if "reachable eq S" for S
    using that
  proof (induction rule: reachable.induct)
    case (r_new nm)
    show ?case by simp
  next
    case (r_insert A v)
    then show ?case by (simp add: noDuplicates_insert [OF sym])
  next
    case (r_setName A nm)
    then show ?case by simp
  next
    case (r_union A B)
    show ?case
      unfolding unionWith_def Let_def getElements_def fold_insert_if_True [of eq]
      by (intro noDuplicates_fold [OF sym]) simp
  next
    case (r_intersection A B)
    show ?case
      unfolding intersectionWith_def Let_def
      by (intro noDuplicates_fold [OF sym]) simp
  next
    case (r_difference A B)
    show ?case
      unfolding differenceWith_def Let_def
      by (intro noDuplicates_fold [OF sym]) simp
  next
    case (r_symmetric A B)
    show ?case
      unfolding symmetricDifferenceWith_def Let_def getElements_def
      by (intro noDuplicates_fold [OF sym]) simp
  qed
  then show ?thesis
    by (simp add: powerSet_def cartesianProductWith_def)
qed

theorem reachable_noDuplicates_witness:
  "equivp ((=) :: int \<Rightarrow> int \<Rightarrow> bool)
   \<and> reachable (=) (unionWith (=) (insert_DataSet (=) 2 (insert_DataSet (=) (1::int) (DataSet ''A'')))
                                  (insert_DataSet (=) 1 (insert_DataSet (=) 2 (DataSet ''B''))))
   \<and> noDuplicates (=) (elements
        (unionWith (=) (insert_DataSet (=) 2 (insert_DataSet (=) (1::int) (DataSet ''A'')))
                       (insert_DataSet (=) 1 (insert_DataSet (=) 2 (DataSet ''B'')))))"
proof -
  have r: "reachable (=) (unionWith (=) (insert_DataSet (=) 2 (insert_DataSet (=) (1::int) (DataSet ''A'')))
                                        (insert_DataSet (=) 1 (insert_DataSet (=) 2 (DataSet ''B''))))"
    by (intro reachable.intros)
  show ?thesis
    using r reachable_noDuplicates [OF identity_equivp,
        of "unionWith (=) (insert_DataSet (=) 2 (insert_DataSet (=) (1::int) (DataSet ''A'')))
                          (insert_DataSet (=) 1 (insert_DataSet (=) 2 (DataSet ''B'')))"]
    by (simp add: identity_equivp)
qed

section \<open>Errors of the collection\<close>

lemma findIndexByName_loop_none:
  "findIndexByName_loop ss nm i = - 1 \<longleftrightarrow> (\<forall>j. i \<le> j \<and> j < length ss \<longrightarrow> getName (ss ! j) \<noteq> nm)"
proof (induction ss nm i rule: findIndexByName_loop.induct)
  case (1 ss nm i)
  show ?case
  proof (cases "i < length ss")
    case False
    then show ?thesis
      by (subst findIndexByName_loop.simps) auto
  next
    case True
    show ?thesis
    proof (cases "getName (ss ! i) = nm")
      case hit: True
      have "findIndexByName_loop ss nm i = int i"
        using True hit by (subst findIndexByName_loop.simps) simp
      then show ?thesis
        using True hit by auto
    next
      case miss: False
      have "findIndexByName_loop ss nm i = findIndexByName_loop ss nm (Suc i)"
        using True miss by (subst findIndexByName_loop.simps) simp
      moreover have "(\<forall>j. i \<le> j \<and> j < length ss \<longrightarrow> getName (ss ! j) \<noteq> nm)
                       \<longleftrightarrow> (\<forall>j. Suc i \<le> j \<and> j < length ss \<longrightarrow> getName (ss ! j) \<noteq> nm)"
      proof -
        have "i \<le> j \<longleftrightarrow> j = i \<or> Suc i \<le> j" for j by arith
        then show ?thesis using miss by auto
      qed
      ultimately show ?thesis
        using "1.IH" [OF True miss] by simp
    qed
  qed
qed

lemma findIndexByName_loop_some:
  "findIndexByName_loop ss nm i \<noteq> - 1 \<Longrightarrow>
     0 \<le> findIndexByName_loop ss nm i
     \<and> nat (findIndexByName_loop ss nm i) < length ss
     \<and> getName (ss ! nat (findIndexByName_loop ss nm i)) = nm"
proof (induction ss nm i rule: findIndexByName_loop.induct)
  case (1 ss nm i)
  show ?case
  proof (cases "i < length ss")
    case False
    then have "findIndexByName_loop ss nm i = - 1"
      by (subst findIndexByName_loop.simps) simp
    with "1.prems" show ?thesis by simp
  next
    case True
    show ?thesis
    proof (cases "getName (ss ! i) = nm")
      case hit: True
      have "findIndexByName_loop ss nm i = int i"
        using True hit by (subst findIndexByName_loop.simps) simp
      then show ?thesis
        using True hit by simp
    next
      case miss: False
      have "findIndexByName_loop ss nm i = findIndexByName_loop ss nm (Suc i)"
        using True miss by (subst findIndexByName_loop.simps) simp
      then show ?thesis
        using "1.IH" [OF True miss] "1.prems" by simp
    qed
  qed
qed

lemma hasSet_iff: "hasSet C nm \<longleftrightarrow> nm \<in> set (getSetNames C)"
proof -
  have "hasSet C nm \<longleftrightarrow> (\<exists>j < length (sets C). getName (sets C ! j) = nm)"
    by (auto simp: hasSet_def findIndexByName_def findIndexByName_loop_none)
  also have "\<dots> \<longleftrightarrow> (\<exists>S\<in>set (sets C). getName S = nm)"
    by (simp add: in_set_conv_nth Bex_def) blast
  also have "\<dots> \<longleftrightarrow> nm \<in> set (getSetNames C)"
    by (auto simp: getSetNames_def)
  finally show ?thesis .
qed

lemma NotFound_inject [simp]: "NotFound a = NotFound b \<longleftrightarrow> a = b"
  by (simp add: NotFound_def)

lemma error_kinds_distinct [simp]:
  "NotFound a \<noteq> InvalidOperation b" "NotFound a \<noteq> UnsupportedUnary b"
  "InvalidOperation b \<noteq> NotFound a" "UnsupportedUnary b \<noteq> NotFound a"
  "InvalidOperation a \<noteq> UnsupportedUnary b" "UnsupportedUnary b \<noteq> InvalidOperation a"
  by (simp_all add: NotFound_def InvalidOperation_def UnsupportedUnary_def)

lemma getSet_cases:
  "getSet C nm = (if hasSet C nm then Inr (sets C ! nat (findIndexByName C nm)) else Inl (NotFound nm))"
  by (simp add: getSet_def hasSet_def Let_def)

lemma getSet_returns_named:
  assumes "getSet C nm = Inr S"
  shows "S \<in> set (sets C) \<and> getName S = nm"
proof -
  have ne: "findIndexByName_loop (sets C) nm 0 \<noteq> - 1"
    and S: "S = sets C ! nat (findIndexByName_loop (sets C) nm 0)"
    using assms by (auto simp: getSet_def findIndexByName_def Let_def split: if_splits)
  from findIndexByName_loop_some [OF ne] S show ?thesis by simp
qed

lemma scenario_hasSet:
  "hasSet scenario_collection ''A''" "hasSet scenario_collection ''B''"
  "\<not> hasSet scenario_collection ''Z''"
  by (simp_all add: hasSet_iff getSetNames_def getName_def scenario_defs)

text \<open>
  C8, as the source has it. A name is registered when \<open>hasSet\<close> holds, that is when it
  is one of \<open>getSetNames\<close>. \<open>getSet\<close>, \<open>insertInto\<close>, \<open>operate\<close>,
  \<open>operateUnarySet\<close> and \<open>cartesianProduct\<close> throw the not-found error exactly when a
  name they are given is not registered. \<open>operate\<close> throws the invalid-operation error
  exactly when both names are registered and the keyword is none of \<open>union\<close>,
  \<open>intersection\<close>, \<open>difference\<close>, \<open>symmetric_difference\<close>; \<open>operateUnarySet\<close> throws
  the unsupported-operation error exactly when the name is registered and the keyword is
  not \<open>powerset\<close>. The calls return without error exactly when every name is registered
  and the keyword, where there is one, is recognised.
\<close>

theorem collection_errors:
  "(hasSet C nm \<longleftrightarrow> nm \<in> set (getSetNames C))
   \<and> ((\<exists>n. getSet C nm = Inl (NotFound n)) \<longleftrightarrow> \<not> hasSet C nm)
   \<and> (isl (getSet C nm) \<longleftrightarrow> \<not> hasSet C nm)
   \<and> ((\<exists>n. insertInto eq nm v C = Inl (NotFound n)) \<longleftrightarrow> \<not> hasSet C nm)
   \<and> (isl (insertInto eq nm v C) \<longleftrightarrow> \<not> hasSet C nm)
   \<and> ((\<exists>n. operate eq C nameA op nameB = Inl (NotFound n)) \<longleftrightarrow> \<not> hasSet C nameA \<or> \<not> hasSet C nameB)
   \<and> ((\<exists>k. operate eq C nameA op nameB = Inl (InvalidOperation k))
        \<longleftrightarrow> hasSet C nameA \<and> hasSet C nameB
            \<and> op \<notin> set [''union'', ''intersection'', ''difference'', ''symmetric_difference''])
   \<and> (\<not> isl (operate eq C nameA op nameB)
        \<longleftrightarrow> hasSet C nameA \<and> hasSet C nameB
            \<and> op \<in> set [''union'', ''intersection'', ''difference'', ''symmetric_difference''])
   \<and> ((\<exists>n. operateUnarySet C nm op = Inl (NotFound n)) \<longleftrightarrow> \<not> hasSet C nm)
   \<and> ((\<exists>k. operateUnarySet C nm op = Inl (UnsupportedUnary k)) \<longleftrightarrow> hasSet C nm \<and> op \<noteq> ''powerset'')
   \<and> (\<not> isl (operateUnarySet C nm op) \<longleftrightarrow> hasSet C nm \<and> op = ''powerset'')
   \<and> ((\<exists>n. cartesianProduct C nameA nameB = Inl (NotFound n)) \<longleftrightarrow> \<not> hasSet C nameA \<or> \<not> hasSet C nameB)
   \<and> (\<not> isl (cartesianProduct C nameA nameB) \<longleftrightarrow> hasSet C nameA \<and> hasSet C nameB)"
proof -
  have g: "(\<exists>n. getSet C nm = Inl (NotFound n)) \<longleftrightarrow> \<not> hasSet C nm"
    "isl (getSet C nm) \<longleftrightarrow> \<not> hasSet C nm"
    by (auto simp: getSet_cases)
  have i: "(\<exists>n. insertInto eq nm v C = Inl (NotFound n)) \<longleftrightarrow> \<not> hasSet C nm"
    "isl (insertInto eq nm v C) \<longleftrightarrow> \<not> hasSet C nm"
    by (auto simp: insertInto_def hasSet_def Let_def)
  have o: "(\<exists>n. operate eq C nameA op nameB = Inl (NotFound n)) \<longleftrightarrow> \<not> hasSet C nameA \<or> \<not> hasSet C nameB"
    "(\<exists>k. operate eq C nameA op nameB = Inl (InvalidOperation k))
        \<longleftrightarrow> hasSet C nameA \<and> hasSet C nameB
            \<and> op \<notin> set [''union'', ''intersection'', ''difference'', ''symmetric_difference'']"
    "\<not> isl (operate eq C nameA op nameB)
        \<longleftrightarrow> hasSet C nameA \<and> hasSet C nameB
            \<and> op \<in> set [''union'', ''intersection'', ''difference'', ''symmetric_difference'']"
    by (auto simp: operate_def getSet_cases Let_def)
  have u: "(\<exists>n. operateUnarySet C nm op = Inl (NotFound n)) \<longleftrightarrow> \<not> hasSet C nm"
    "(\<exists>k. operateUnarySet C nm op = Inl (UnsupportedUnary k)) \<longleftrightarrow> hasSet C nm \<and> op \<noteq> ''powerset''"
    "\<not> isl (operateUnarySet C nm op) \<longleftrightarrow> hasSet C nm \<and> op = ''powerset''"
    by (auto simp: operateUnarySet_def getSet_cases)
  have c: "(\<exists>n. cartesianProduct C nameA nameB = Inl (NotFound n)) \<longleftrightarrow> \<not> hasSet C nameA \<or> \<not> hasSet C nameB"
    "\<not> isl (cartesianProduct C nameA nameB) \<longleftrightarrow> hasSet C nameA \<and> hasSet C nameB"
    by (auto simp: cartesianProduct_def getSet_cases)
  show ?thesis
    using hasSet_iff [of C nm] g i o u c by blast
qed

theorem collection_errors_witness:
  "hasSet scenario_collection ''A'' \<and> hasSet scenario_collection ''B''
   \<and> \<not> hasSet scenario_collection ''Z''
   \<and> \<not> isl (getSet scenario_collection ''A'')
   \<and> (\<exists>n. getSet scenario_collection ''Z'' = Inl (NotFound n))
   \<and> \<not> isl (insertInto (=) ''A'' 9 scenario_collection)
   \<and> (\<exists>n. insertInto (=) ''Z'' 9 scenario_collection = Inl (NotFound n))
   \<and> \<not> isl (operate (=) scenario_collection ''A'' ''union'' ''B'')
   \<and> (\<exists>k. operate (=) scenario_collection ''A'' ''xor'' ''B'' = Inl (InvalidOperation k))
   \<and> (\<exists>n. operate (=) scenario_collection ''A'' ''union'' ''Z'' = Inl (NotFound n))
   \<and> \<not> isl (operateUnarySet scenario_collection ''A'' ''powerset'')
   \<and> (\<exists>k. operateUnarySet scenario_collection ''A'' ''complement'' = Inl (UnsupportedUnary k))
   \<and> (\<exists>n. operateUnarySet scenario_collection ''Z'' ''powerset'' = Inl (NotFound n))
   \<and> \<not> isl (cartesianProduct scenario_collection ''A'' ''B'')
   \<and> (\<exists>n. cartesianProduct scenario_collection ''Z'' ''B'' = Inl (NotFound n))"
  using collection_errors [of scenario_collection "''A''" "(=)" 9 "''A''" "''union''" "''B''"]
    collection_errors [of scenario_collection "''Z''" "(=)" 9 "''A''" "''xor''" "''B''"]
    collection_errors [of scenario_collection "''A''" "(=)" 9 "''A''" "''union''" "''Z''"]
    collection_errors [of scenario_collection "''A''" "(=)" 9 "''Z''" "''powerset''" "''B''"]
    collection_errors [of scenario_collection "''A''" "(=)" 9 "''A''" "''complement''" "''B''"]
    collection_errors [of scenario_collection "''Z''" "(=)" 9 "''A''" "''powerset''" "''B''"]
    scenario_hasSet
  by simp

text \<open>
  The claim C8 as it is worded lets the keyword alone decide the unsupported-operation
  error. With \<open>B\<close> registered and \<open>A\<close> not, \<open>operate("A", "xor", "B")\<close> has an
  unrecognised keyword and throws the not-found error for \<open>A\<close>, which is a different
  error from the invalid-operation error for \<open>xor\<close>.
\<close>

theorem operate_unknown_keyword_missing_name:
  "''xor'' \<notin> set [''union'', ''intersection'', ''difference'', ''symmetric_difference'']
   \<and> operate (=) \<lparr>sets = [scenario_B]\<rparr> ''A'' ''xor'' ''B'' = Inl (NotFound ''A'')
   \<and> NotFound ''A'' \<noteq> InvalidOperation ''xor''"
  by (simp add: operate_def getSet_def findIndexByName_def findIndexByName_loop.simps
      getName_def scenario_defs)

text \<open>
  C10. For a name that is not registered, \<open>printSet\<close> returns normally: the collection
  is returned as it was, \<open>std::cout\<close> is untouched and the only effect is the line
  \<open>Set '<name>' not found.\<close> on \<open>std::cerr\<close>. \<open>getSet\<close> throws the not-found error
  for the same name.
\<close>

theorem printSet_missing_name:
  assumes "\<not> hasSet C nm"
  shows "printSet sh nm (C, io)
           = Inr (C, io\<lparr>cerr := cerr io @ ''Set '' @ [CHR 0x27] @ nm @ [CHR 0x27] @ '' not found.''
                                   @ [CHR 0x0A]\<rparr>)
         \<and> getSet C nm = Inl (NotFound nm)"
  using assms by (simp add: printSet_def getSet_def hasSet_def Let_def)

theorem printSet_missing_name_witness:
  "\<not> hasSet scenario_collection ''Z''
   \<and> printSet (\<lambda>n. ''#'') ''Z'' (scenario_collection, \<lparr>cout = [], cerr = []\<rparr>)
       = Inr (scenario_collection,
              \<lparr>cout = [], cerr = ''Set '' @ [CHR 0x27] @ ''Z'' @ [CHR 0x27] @ '' not found.'' @ [CHR 0x0A]\<rparr>)
   \<and> getSet scenario_collection ''Z'' = Inl (NotFound ''Z'')"
  using printSet_missing_name [of scenario_collection "''Z''" "\<lambda>n. ''#''" "\<lparr>cout = [], cerr = []\<rparr>"]
    scenario_hasSet(3)
  by simp

end
